theory Spec2Isabelle
  imports Complex_Main
begin

section \<open>Numbers and arrays\<close>

text \<open>
  The script \<open>plotter.py\<close> works on numpy arrays.  The arrays modelled here are those of
  dtype float64, which \<open>np.loadtxt\<close> always returns: a number is a real or one of the three
  special values of IEEE arithmetic.  The arithmetic of line 185 is written out on these
  values without rounding and without overflow, and the integer and object arrays that
  pandas can build from a .csv file are not modelled; so the properties below are about
  which rows are kept, which errors are raised and which arrays are changed, and none is
  about the value of a colour.
\<close>

datatype npfloat = Fin real | PInf | NInf | NaN

text \<open>Truth value of a number, as \<open>ndarray.any\<close> reads it: everything but zero is true.\<close>

fun truthy :: "npfloat \<Rightarrow> bool" where
  "truthy (Fin x) = (x \<noteq> 0)"
| "truthy PInf = True"
| "truthy NInf = True"
| "truthy NaN = True"

fun np_mul :: "npfloat \<Rightarrow> npfloat \<Rightarrow> npfloat" where
  "np_mul NaN y = NaN"
| "np_mul (Fin a) (Fin b) = Fin (a * b)"
| "np_mul (Fin a) PInf = (if 0 < a then PInf else if a < 0 then NInf else NaN)"
| "np_mul (Fin a) NInf = (if 0 < a then NInf else if a < 0 then PInf else NaN)"
| "np_mul (Fin a) NaN = NaN"
| "np_mul PInf (Fin b) = (if 0 < b then PInf else if b < 0 then NInf else NaN)"
| "np_mul PInf PInf = PInf"
| "np_mul PInf NInf = NInf"
| "np_mul PInf NaN = NaN"
| "np_mul NInf (Fin b) = (if 0 < b then NInf else if b < 0 then PInf else NaN)"
| "np_mul NInf PInf = NInf"
| "np_mul NInf NInf = PInf"
| "np_mul NInf NaN = NaN"

fun np_sub :: "npfloat \<Rightarrow> npfloat \<Rightarrow> npfloat" where
  "np_sub NaN y = NaN"
| "np_sub (Fin a) (Fin b) = Fin (a - b)"
| "np_sub (Fin a) PInf = NInf"
| "np_sub (Fin a) NInf = PInf"
| "np_sub (Fin a) NaN = NaN"
| "np_sub PInf (Fin b) = PInf"
| "np_sub PInf PInf = NaN"
| "np_sub PInf NInf = PInf"
| "np_sub PInf NaN = NaN"
| "np_sub NInf (Fin b) = NInf"
| "np_sub NInf PInf = NInf"
| "np_sub NInf NInf = NaN"
| "np_sub NInf NaN = NaN"

text \<open>
  Division of float64 values does not raise: under numpy's default error state a zero
  divisor gives an infinity or a NaN (and a warning).
\<close>

fun np_div :: "npfloat \<Rightarrow> npfloat \<Rightarrow> npfloat" where
  "np_div NaN y = NaN"
| "np_div (Fin a) (Fin b) =
     (if b \<noteq> 0 then Fin (a / b)
      else if 0 < a then PInf else if a < 0 then NInf else NaN)"
| "np_div (Fin a) PInf = Fin 0"
| "np_div (Fin a) NInf = Fin 0"
| "np_div (Fin a) NaN = NaN"
| "np_div PInf (Fin b) = (if b < 0 then NInf else PInf)"
| "np_div PInf PInf = NaN"
| "np_div PInf NInf = NaN"
| "np_div PInf NaN = NaN"
| "np_div NInf (Fin b) = (if b < 0 then PInf else NInf)"
| "np_div NInf PInf = NaN"
| "np_div NInf NInf = NaN"
| "np_div NInf NaN = NaN"

fun np_less :: "npfloat \<Rightarrow> npfloat \<Rightarrow> bool" where
  "np_less (Fin a) (Fin b) = (a < b)"
| "np_less (Fin a) PInf = True"
| "np_less NInf (Fin b) = True"
| "np_less NInf PInf = True"
| "np_less x y = False"

text \<open>The reductions \<open>np.max\<close> and \<open>np.min\<close> propagate NaN.\<close>

definition np_maximum :: "npfloat \<Rightarrow> npfloat \<Rightarrow> npfloat" where
  "np_maximum a b = (if a = NaN \<or> b = NaN then NaN else if np_less a b then b else a)"

definition np_minimum :: "npfloat \<Rightarrow> npfloat \<Rightarrow> npfloat" where
  "np_minimum a b = (if a = NaN \<or> b = NaN then NaN else if np_less b a then b else a)"

text \<open>
  An array is 0-, 1- or 2-dimensional.  \<open>Arr2 k rows\<close> has shape \<open>(length rows, k)\<close>; the
  number of columns is kept apart because an array may have no rows.
\<close>

datatype ndarray = Arr0 npfloat | Arr1 "npfloat list" | Arr2 nat "npfloat list list"

fun shape :: "ndarray \<Rightarrow> nat list" where
  "shape (Arr0 x) = []"
| "shape (Arr1 xs) = [length xs]"
| "shape (Arr2 k rows) = [length rows, k]"

fun array_rows :: "ndarray \<Rightarrow> npfloat list list" where
  "array_rows (Arr2 k rows) = rows"
| "array_rows (Arr1 xs) = map (\<lambda>x. [x]) xs"
| "array_rows (Arr0 x) = []"

text \<open>\<open>np.squeeze\<close>: axes of length one are removed.\<close>

fun squeeze :: "ndarray \<Rightarrow> ndarray" where
  "squeeze (Arr0 x) = Arr0 x"
| "squeeze (Arr1 xs) = (case xs of [x] \<Rightarrow> Arr0 x | _ \<Rightarrow> Arr1 xs)"
| "squeeze (Arr2 k rows) =
     (case rows of
        [r] \<Rightarrow> (case r of [x] \<Rightarrow> Arr0 x | _ \<Rightarrow> Arr1 r)
      | _ \<Rightarrow> if k = 1 then Arr1 (concat rows) else Arr2 k rows)"

section \<open>Errors, files and the two library parsers\<close>

text \<open>
  Python exceptions are values.  The script raises \<open>ValueError\<close> itself, with two
  messages: the specification calls the first \<open>InvalidExtension\<close> and the second
  \<open>MalformedData\<close>.  The other errors come from the libraries.
\<close>

datatype error =
    ValueError string
  | IndexError
  | AxisError
  | EmptyDataError
  | ParserError
  | FileNotFoundError

definition InvalidExtension :: "string \<Rightarrow> error" where
  "InvalidExtension filename = ValueError (filename @ '' has an invalid extension.'')"

definition MalformedData :: error where
  "MalformedData =
     ValueError ''Data in the .csv is not structured correctly.  File must have 6 columns.''"

text \<open>
  A file is its lines, each split into its numeric fields (at the commas of a .csv file,
  at the blanks of a whitespace file); a blank line has no field.  The world holds
  the files and the trace of what a call printed and which files it opened.
\<close>

type_synonym textfile = "npfloat list list"

datatype event = Print string | Open string

record world =
  files :: "string \<Rightarrow> textfile option"
  trace :: "event list"

definition emit :: "event \<Rightarrow> world \<Rightarrow> world" where
  "emit e w = w\<lparr>trace := trace w @ [e]\<rparr>"

definition pad :: "nat \<Rightarrow> npfloat list \<Rightarrow> npfloat list" where
  "pad k r = r @ replicate (k - length r) NaN"

text \<open>
  \<open>np.array(pd.read_csv(filename, header=None))\<close> and, with a header,
  \<open>np.array(pd.read_csv(filename))\<close>.  Blank lines are skipped, and a file with no other
  line is an error.  Without a header the first line fixes the number of columns; a
  longer line is an error, a shorter one is filled with NaN.  With a header the first line
  names the columns and the second fixes the number of fields: when it has more fields
  than there are names, the surplus leading fields of every line are the index of the
  frame and not part of the array.  The result is always 2-dimensional.
\<close>

definition read_csv :: "textfile \<Rightarrow> bool \<Rightarrow> error + ndarray" where
  "read_csv f header =
     (case filter (\<lambda>r. r \<noteq> []) f of
        [] \<Rightarrow> Inl EmptyDataError
      | r # rs \<Rightarrow>
          if \<not> header then
            if list_ex (\<lambda>x. length r < length x) rs then Inl ParserError
            else Inr (Arr2 (length r) (map (pad (length r)) (r # rs)))
          else
            (case rs of
               [] \<Rightarrow> Inr (Arr2 (length r) [])
             | d # ds \<Rightarrow>
                 let w = max (length r) (length d) in
                 if list_ex (\<lambda>x. w < length x) ds then Inl ParserError
                 else Inr (Arr2 (length r)
                        (map (\<lambda>x. drop (w - length r) (pad w x)) (d # ds)))))"

text \<open>
  \<open>np.loadtxt(filename)\<close>: blank lines are skipped, all lines must have the same number
  of fields, and the result is squeezed, so that a file of one line gives a 1-dimensional
  array (a file of one number a 0-dimensional one).  An empty file gives an empty
  1-dimensional array, and a warning.
\<close>

definition loadtxt :: "textfile \<Rightarrow> error + ndarray" where
  "loadtxt f =
     (case filter (\<lambda>r. r \<noteq> []) f of
        [] \<Rightarrow> Inr (Arr1 [])
      | r # rs \<Rightarrow>
          if list_ex (\<lambda>x. length x \<noteq> length r) rs
          then Inl (ValueError ''Wrong number of columns'')
          else Inr (squeeze (Arr2 (length r) (r # rs))))"

section \<open>Loading\<close>

text \<open>Python's \<open>s[-n:]\<close>: the last \<open>n\<close> characters, or all of \<open>s\<close> when it is shorter.\<close>

definition last_chars :: "nat \<Rightarrow> string \<Rightarrow> string" where
  "last_chars n s = drop (length s - n) s"

text \<open>\<open>data.shape[1]\<close>: an array of fewer than two dimensions has no such entry.\<close>

fun shape1 :: "ndarray \<Rightarrow> error + nat" where
  "shape1 (Arr2 k rows) = Inr k"
| "shape1 (Arr1 xs) = Inl IndexError"
| "shape1 (Arr0 x) = Inl IndexError"

text \<open>\<open>data[:, :3]\<close> and \<open>data[:, 3:]\<close>, which follow the check of \<open>shape[1]\<close>.\<close>

definition split_columns :: "nat \<Rightarrow> npfloat list list \<Rightarrow> ndarray \<times> ndarray" where
  "split_columns k rows =
     (Arr2 (min 3 k) (map (take 3) rows), Arr2 (k - 3) (map (drop 3) rows))"

definition check_and_split :: "ndarray \<Rightarrow> error + ndarray \<times> ndarray" where
  "check_and_split data =
     (case shape1 data of
        Inl e \<Rightarrow> Inl e
      | Inr k \<Rightarrow>
          if k \<noteq> 6 then Inl MalformedData
          else Inr (split_columns k (array_rows data)))"

definition load_csv :: "world \<Rightarrow> string \<Rightarrow> bool \<Rightarrow> (error + ndarray \<times> ndarray) \<times> world" where
  "load_csv w filename header =
     (if last_chars 4 filename \<noteq> ''.csv''
      then (Inl (ValueError ''filename does not have .csv extension.''), w)
      else
        let w' = emit (Open filename) w in
        case files w filename of
          None \<Rightarrow> (Inl FileNotFoundError, w')
        | Some f \<Rightarrow>
            (case read_csv f header of
               Inl e \<Rightarrow> (Inl e, w')
             | Inr data \<Rightarrow> (check_and_split data, w')))"

definition load_oomf :: "world \<Rightarrow> string \<Rightarrow> (error + ndarray \<times> ndarray) \<times> world" where
  "load_oomf w filename =
     (let w' = emit (Open filename) w in
      case files w filename of
        None \<Rightarrow> (Inl FileNotFoundError, w')
      | Some f \<Rightarrow>
          (case loadtxt f of
             Inl e \<Rightarrow> (Inl e, w')
           | Inr data \<Rightarrow> (check_and_split data, w')))"

definition load_data :: "world \<Rightarrow> string \<Rightarrow> (error + ndarray \<times> ndarray) \<times> world" where
  "load_data w filename =
     (let w' = emit (Print (''loading '' @ filename @ '' ...'')) w in
      if CHR ''.'' \<in> set (last_chars 5 filename)
      then
        if last_chars 4 filename = ''.csv'' then load_csv w' filename False
        else (Inl (InvalidExtension filename), w')
      else load_oomf w' filename)"

section \<open>Rendering\<close>

text \<open>
  \<open>plot_magnetization\<close> is handed two array objects.  Objects live in a heap: \<open>cells\<close>
  gives the array at an address, and the addresses below \<open>next_free\<close> are the allocated ones.
  An operation that builds a new array allocates it at \<open>next_free\<close>.
\<close>

type_synonym addr = nat

record heap =
  cells :: "addr \<Rightarrow> ndarray"
  next_free :: addr

definition alloc :: "ndarray \<Rightarrow> heap \<Rightarrow> addr \<times> heap" where
  "alloc a h = (next_free h, h\<lparr>cells := (cells h)(next_free h := a), next_free := Suc (next_free h)\<rparr>)"

text \<open>\<open>mag.any(axis=1)\<close>: one truth value per row; only a 2-dimensional array has an axis 1.\<close>

fun any_axis1 :: "ndarray \<Rightarrow> error + bool list" where
  "any_axis1 (Arr2 k rows) = Inr (map (list_ex truthy) rows)"
| "any_axis1 (Arr1 xs) = Inl AxisError"
| "any_axis1 (Arr0 x) = Inl AxisError"

text \<open>\<open>np.where(flags)[0]\<close>: the indices of the true entries, in increasing order.\<close>

definition np_where :: "bool list \<Rightarrow> nat list" where
  "np_where flags = filter (\<lambda>i. flags ! i) [0..<length flags]"

text \<open>
  \<open>a[mask,:]\<close> with an index array: a new array of the rows named by the index array; an index
  past the last row, or an array of fewer than two dimensions, raises \<open>IndexError\<close>.
\<close>

fun index_rows :: "ndarray \<Rightarrow> nat list \<Rightarrow> error + ndarray" where
  "index_rows (Arr2 k rows) ix =
     (if list_all (\<lambda>i. i < length rows) ix then Inr (Arr2 k (map (\<lambda>i. rows ! i) ix))
      else Inl IndexError)"
| "index_rows (Arr1 xs) ix = Inl IndexError"
| "index_rows (Arr0 x) ix = Inl IndexError"

text \<open>\<open>a[:,j]\<close>: column \<open>j\<close>.\<close>

fun column :: "ndarray \<Rightarrow> nat \<Rightarrow> error + npfloat list" where
  "column (Arr2 k rows) j = (if j < k then Inr (map (\<lambda>r. r ! j) rows) else Inl IndexError)"
| "column (Arr1 xs) j = Inl IndexError"
| "column (Arr0 x) j = Inl IndexError"

text \<open>\<open>a[:,0], a[:,1], a[:,2]\<close>, evaluated from left to right.\<close>

definition columns3 :: "ndarray \<Rightarrow> error + npfloat list \<times> npfloat list \<times> npfloat list" where
  "columns3 a =
     (case column a 0 of Inl e \<Rightarrow> Inl e | Inr c0 \<Rightarrow>
      case column a 1 of Inl e \<Rightarrow> Inl e | Inr c1 \<Rightarrow>
      case column a 2 of Inl e \<Rightarrow> Inl e | Inr c2 \<Rightarrow> Inr (c0, c1, c2))"

text \<open>\<open>np.max\<close> and \<open>np.min\<close> of a 1-dimensional array; an empty one raises \<open>ValueError\<close>.\<close>

fun np_max :: "npfloat list \<Rightarrow> error + npfloat" where
  "np_max [] =
     Inl (ValueError ''zero-size array to reduction operation maximum which has no identity'')"
| "np_max (x # xs) = Inr (foldl np_maximum x xs)"

fun np_min :: "npfloat list \<Rightarrow> error + npfloat" where
  "np_min [] =
     Inl (ValueError ''zero-size array to reduction operation minimum which has no identity'')"
| "np_min (x # xs) = Inr (foldl np_minimum x xs)"

text \<open>
  Lines 174-175: \<open>mask = np.where(mag.any(axis=1))[0]\<close> and
  \<open>pos, mag = pos[mask,:], mag[mask,:]\<close>.  The two selections are new arrays; the local
  names are bound to them, and the arrays of the caller are only read.
\<close>

definition filter_sites :: "heap \<Rightarrow> addr \<Rightarrow> addr \<Rightarrow> (error + addr \<times> addr) \<times> heap" where
  "filter_sites h pos mag =
     (case any_axis1 (cells h mag) of
        Inl e \<Rightarrow> (Inl e, h)
      | Inr flags \<Rightarrow>
          let mask = np_where flags in
          case index_rows (cells h pos) mask of
            Inl e \<Rightarrow> (Inl e, h)
          | Inr a \<Rightarrow>
              let (pos', h1) = alloc a h in
              case index_rows (cells h1 mag) mask of
                Inl e \<Rightarrow> (Inl e, h1)
              | Inr b \<Rightarrow>
                  let (mag', h2) = alloc b h1 in (Inr (pos', mag'), h2))"

text \<open>Line 185: \<open>color = 2 * Mz / (np.max(Mz) - np.min(Mz))\<close>.\<close>

definition color :: "npfloat list \<Rightarrow> error + npfloat list" where
  "color Mz =
     (case np_max Mz of Inl e \<Rightarrow> Inl e | Inr hi \<Rightarrow>
      case np_min Mz of Inl e \<Rightarrow> Inl e | Inr lo \<Rightarrow>
        Inr (map (\<lambda>z. np_div (np_mul (Fin 2) z) (np_sub hi lo)) Mz))"

text \<open>
  What is drawn on the axis: \<open>ax.scatter(X, Y, s=1, c=color)\<close>,
  \<open>ax.quiver(X, Y, Mx, My, color, units='xy')\<close> and \<open>fig.colorbar(cr)\<close>, the colorbar of
  the scatter.  A figure with its axis is the list of what was drawn, in order.  The three
  calls are taken to accept float64 arrays of equal length; what matplotlib does with an
  array of another dtype is outside the model.
\<close>

datatype artist =
    Scatter "npfloat list" "npfloat list" "npfloat list"
  | Quiver "npfloat list" "npfloat list" "npfloat list" "npfloat list" "npfloat list"
  | Colorbar "npfloat list"

type_synonym figure = "artist list"

definition plot_magnetization ::
    "heap \<Rightarrow> addr \<Rightarrow> addr \<Rightarrow> figure option \<Rightarrow> (error + figure) \<times> heap" where
  "plot_magnetization h pos mag figax =
     (let ax = (case figax of None \<Rightarrow> [] | Some fa \<Rightarrow> fa) in
      case filter_sites h pos mag of
        (Inl e, h') \<Rightarrow> (Inl e, h')
      | (Inr (pos', mag'), h') \<Rightarrow>
          (case columns3 (cells h' pos') of
             Inl e \<Rightarrow> (Inl e, h')
           | Inr (X, Y, Z) \<Rightarrow>
               (case columns3 (cells h' mag') of
                  Inl e \<Rightarrow> (Inl e, h')
                | Inr (Mx, My, Mz) \<Rightarrow>
                    (case color Mz of
                       Inl e \<Rightarrow> (Inl e, h')
                     | Inr c \<Rightarrow>
                         let (col, h'') = alloc (Arr1 c) h' in
                         (Inr (ax @ [Scatter X Y c, Quiver X Y Mx My c, Colorbar c]), h'')))))"

text \<open>
  The claims about the filter are stated against the sites as the specification describes
  them: the rows of the two arrays, side by side, whose magnetization has a component
  other than zero.
\<close>

definition nonzero_sites ::
    "npfloat list list \<Rightarrow> npfloat list list \<Rightarrow> (npfloat list \<times> npfloat list) list" where
  "nonzero_sites ps ms = filter (\<lambda>(p, m). \<exists>c\<in>set m. c \<noteq> Fin 0) (zip ps ms)"

text \<open>
  What one call adds to the axis for the sites it keeps and their colours: the scatter of
  the positions' columns 0 and 1, the quiver of the magnetizations' columns 0 and 1 at the
  same points, and the colorbar.
\<close>

definition drawing :: "(npfloat list \<times> npfloat list) list \<Rightarrow> npfloat list \<Rightarrow> figure" where
  "drawing sites c =
     [Scatter (map (\<lambda>(p, m). p ! 0) sites) (map (\<lambda>(p, m). p ! 1) sites) c,
      Quiver (map (\<lambda>(p, m). p ! 0) sites) (map (\<lambda>(p, m). p ! 1) sites)
             (map (\<lambda>(p, m). m ! 0) sites) (map (\<lambda>(p, m). m ! 1) sites) c,
      Colorbar c]"

text \<open>The heap after lines 174-175 when \<open>kept\<close> are the selected rows.\<close>

definition filtered :: "heap \<Rightarrow> nat \<Rightarrow> nat \<Rightarrow> (npfloat list \<times> npfloat list) list \<Rightarrow> heap" where
  "filtered h kp km kept =
     h\<lparr>cells := (cells h)(next_free h := Arr2 kp (map fst kept), Suc (next_free h) := Arr2 km (map snd kept)),
       next_free := Suc (Suc (next_free h))\<rparr>"

text \<open>
  A heap with a position array at address 0 and a magnetization array at address 1, for
  the concrete cases below.
\<close>

definition heap0 :: "ndarray \<Rightarrow> ndarray \<Rightarrow> heap" where
  "heap0 pos mag = \<lparr>cells = (\<lambda>a. Arr1 [])(0 := pos, Suc 0 := mag), next_free = 2\<rparr>"

text \<open>A world with one file and an empty trace, for the concrete cases below.\<close>

definition world0 :: "string \<Rightarrow> textfile \<Rightarrow> world" where
  "world0 name f = \<lparr>files = Map.empty(name \<mapsto> f), trace = []\<rparr>"


section \<open>Properties of loading\<close>

lemma last_chars_csv_iff: "last_chars 4 s = ''.csv'' \<longleftrightarrow> (\<exists>p. s = p @ ''.csv'')"
proof
  assume h: "last_chars 4 s = ''.csv''"
  have "s = take (length s - 4) s @ drop (length s - 4) s" by simp
  with h show "\<exists>p. s = p @ ''.csv''" unfolding last_chars_def by metis
next
  assume "\<exists>p. s = p @ ''.csv''"
  then show "last_chars 4 s = ''.csv''" by (auto simp: last_chars_def)
qed

lemma dot_in_last_chars:
  assumes "last_chars 4 s = ''.csv''"
  shows "CHR ''.'' \<in> set (last_chars 5 s)"
proof -
  have "set (drop (length s - 4) s) \<subseteq> set (drop (length s - 5) s)"
    by (rule set_drop_subset_set_drop) simp
  moreover have "CHR ''.'' \<in> set (drop (length s - 4) s)"
    using assms by (simp add: last_chars_def)
  ultimately show ?thesis by (auto simp: last_chars_def)
qed

lemma filter_nonblank:
  assumes "\<forall>r\<in>set rows. length r = k" and "0 < k"
  shows "filter (\<lambda>r. r \<noteq> []) rows = rows"
  using assms by (induction rows) auto

lemma pad_full: "length r = k \<Longrightarrow> pad k r = r"
  by (simp add: pad_def)

lemma read_csv_table:
  assumes "rows \<noteq> []" and "\<forall>r\<in>set rows. length r = k" and "0 < k"
  shows "read_csv rows False = Inr (Arr2 k rows)"
proof -
  obtain r rs where rows: "rows = r # rs" using assms(1) by (cases rows) auto
  have len: "length r = k" "\<forall>x\<in>set rs. length x = k" using assms(2) rows by auto
  have "\<not> list_ex (\<lambda>x. length r < length x) rs" using len by (simp add: list_ex_iff)
  moreover have "map (pad k) rows = rows" using assms(2) by (simp add: map_idI pad_full)
  ultimately show ?thesis
    using filter_nonblank[OF assms(2,3)] rows len by (simp add: read_csv_def)
qed

lemma loadtxt_table:
  assumes "2 \<le> length rows" and "\<forall>r\<in>set rows. length r = k" and "2 \<le> k"
  shows "loadtxt rows = Inr (Arr2 k rows)"
proof -
  obtain r r' rs where rows: "rows = r # r' # rs"
    using assms(1) by (cases rows; cases "tl rows") auto
  have len: "length r = k" "\<forall>x\<in>set (r' # rs). length x = k" using assms(2) rows by auto
  have "\<not> list_ex (\<lambda>x. length x \<noteq> length r) (r' # rs)" using len by (simp add: list_ex_iff)
  moreover have "filter (\<lambda>r. r \<noteq> []) rows = rows"
    using filter_nonblank[OF assms(2)] assms(3) by simp
  ultimately show ?thesis
    using rows len assms(3) by (simp add: loadtxt_def)
qed

lemma check_and_split_6:
  "check_and_split (Arr2 6 rows) = Inr (Arr2 3 (map (take 3) rows), Arr2 3 (map (drop 3) rows))"
  by (simp add: check_and_split_def split_columns_def)

lemma check_and_split_not_6:
  "k \<noteq> 6 \<Longrightarrow> check_and_split (Arr2 k rows) = Inl MalformedData"
  by (simp add: check_and_split_def)



text \<open>
  C1: a .csv file of \<open>N\<close> lines of six fields each (no header) loads as a position array
  and a magnetization array of shape \<open>(N, 3)\<close>; row \<open>i\<close> of the first is fields 0-2 of
  line \<open>i\<close>, row \<open>i\<close> of the second is fields 3-5, and the two have the same number of
  rows.
\<close>

theorem load_csv_columns:
  assumes "filename = p @ ''.csv''"
    and "files w filename = Some rows"
    and "rows \<noteq> []"
    and "\<forall>r\<in>set rows. length r = 6"
  shows "\<exists>pos mag.
           fst (load_data w filename) = Inr (pos, mag)
         \<and> fst (load_csv w filename False) = Inr (pos, mag)
         \<and> pos = Arr2 3 (map (take 3) rows) \<and> mag = Arr2 3 (map (drop 3) rows)
         \<and> shape pos = [length rows, 3] \<and> shape mag = [length rows, 3]
         \<and> (\<forall>i<length rows. array_rows pos ! i = take 3 (rows ! i)
                            \<and> array_rows mag ! i = drop 3 (rows ! i))
         \<and> length (array_rows pos) = length (array_rows mag)"
proof -
  have csv: "last_chars 4 filename = ''.csv''"
    using assms(1) last_chars_csv_iff by blast
  have dot: "CHR ''.'' \<in> set (last_chars 5 filename)"
    using csv by (rule dot_in_last_chars)
  have parsed: "read_csv rows False = Inr (Arr2 6 rows)"
    using assms(3,4) by (simp add: read_csv_table)
  have "fst (load_csv w' filename False)
          = Inr (Arr2 3 (map (take 3) rows), Arr2 3 (map (drop 3) rows))"
    if "files w' filename = Some rows" for w'
    using that csv parsed by (simp add: load_csv_def Let_def check_and_split_6)
  moreover have "load_data w filename
          = load_csv (emit (Print (''loading '' @ filename @ '' ...'')) w) filename False"
    using csv dot by (simp add: load_data_def Let_def)
  ultimately show ?thesis
    using assms(2) by (simp add: emit_def)
qed

theorem load_csv_columns_witness:
  "fst (load_data (world0 ''sites.csv''
           [[Fin 0, Fin 0, Fin 0, Fin 1, Fin 0, Fin 0], [Fin 1, Fin 0, Fin 0, Fin 0, Fin 1, Fin 2]])
         ''sites.csv'')
     = Inr (Arr2 3 [[Fin 0, Fin 0, Fin 0], [Fin 1, Fin 0, Fin 0]],
            Arr2 3 [[Fin 1, Fin 0, Fin 0], [Fin 0, Fin 1, Fin 2]])"
  using load_csv_columns [of "''sites.csv''" "''sites''"
      "world0 ''sites.csv''
           [[Fin 0, Fin 0, Fin 0, Fin 1, Fin 0, Fin 0], [Fin 1, Fin 0, Fin 0, Fin 0, Fin 1, Fin 2]]"
      "[[Fin 0, Fin 0, Fin 0, Fin 1, Fin 0, Fin 0], [Fin 1, Fin 0, Fin 0, Fin 0, Fin 1, Fin 2]]"]
  by (simp add: world0_def)

lemma fst_load_csv_files:
  "files w1 filename = files w2 filename \<Longrightarrow>
   fst (load_csv w1 filename header) = fst (load_csv w2 filename header)"
  by (simp add: load_csv_def Let_def split: option.splits sum.splits)

lemma fst_load_oomf_files:
  "files w1 filename = files w2 filename \<Longrightarrow>
   fst (load_oomf w1 filename) = fst (load_oomf w2 filename)"
  by (simp add: load_oomf_def Let_def split: option.splits sum.splits)

lemma fst_load_data_files:
  assumes "files w1 filename = files w2 filename"
  shows "fst (load_data w1 filename) = fst (load_data w2 filename)"
proof -
  have same: "files (emit e1 w1) filename = files (emit e2 w2) filename" for e1 e2
    using assms by (simp add: emit_def)
  show ?thesis
    unfolding load_data_def Let_def
    using fst_load_csv_files [OF same] fst_load_oomf_files [OF same] by simp
qed

lemma files_load_csv: "files (snd (load_csv w filename header)) = files w"
  by (simp add: load_csv_def Let_def emit_def split: option.splits sum.splits)

lemma files_load_oomf: "files (snd (load_oomf w filename)) = files w"
  by (simp add: load_oomf_def Let_def emit_def split: option.splits sum.splits)

lemma files_load_data: "files (snd (load_data w filename)) = files w"
  by (simp add: load_data_def Let_def files_load_csv files_load_oomf) (simp add: emit_def)


text \<open>
  C2 fails at a whitespace file of one line with four fields: the parsed array has one
  dimension, reading \<open>shape[1]\<close> raises \<open>IndexError\<close>, and the check of the column count,
  which would raise \<open>MalformedData\<close>, is never reached.
\<close>

theorem four_fields_one_row:
  "fst (load_data (world0 ''data'' [[Fin 1, Fin 2, Fin 3, Fin 4]]) ''data'') = Inl IndexError
   \<and> shape (Arr1 [Fin 1, Fin 2, Fin 3, Fin 4]) = [4]
   \<and> IndexError \<noteq> MalformedData"
  by (simp add: load_data_def load_oomf_def loadtxt_def check_and_split_def
      world0_def last_chars_def emit_def Let_def MalformedData_def)

text \<open>
  C3: a file name with a dot among its last five characters that does not end in
  \<open>.csv\<close> is refused with the \<open>ValueError\<close> that names it; the call prints its message
  and opens no file, whatever the files are.
\<close>

theorem invalid_extension:
  assumes "CHR ''.'' \<in> set (last_chars 5 filename)"
    and "\<not> (\<exists>p. filename = p @ ''.csv'')"
  shows "load_data w filename
           = (Inl (ValueError (filename @ '' has an invalid extension.'')),
              w\<lparr>trace := trace w @ [Print (''loading '' @ filename @ '' ...'')]\<rparr>)
         \<and> fst (load_data w filename) = Inl (InvalidExtension filename)
         \<and> trace (snd (load_data w filename))
             = trace w @ [Print (''loading '' @ filename @ '' ...'')]"
  using assms last_chars_csv_iff [of filename]
  by (simp add: load_data_def Let_def emit_def InvalidExtension_def)

theorem invalid_extension_witness:
  "fst (load_data (world0 ''data.xyz'' [[Fin 1, Fin 2, Fin 3, Fin 4, Fin 5, Fin 6]]) ''data.xyz'')
     = Inl (ValueError ''data.xyz has an invalid extension.'')
   \<and> trace (snd (load_data (world0 ''data.xyz'' [[Fin 1, Fin 2, Fin 3, Fin 4, Fin 5, Fin 6]])
         ''data.xyz'')) = [Print ''loading data.xyz ...'']"
  using invalid_extension [of "''data.xyz''"
      "world0 ''data.xyz'' [[Fin 1, Fin 2, Fin 3, Fin 4, Fin 5, Fin 6]]"]
  by (simp add: last_chars_def world0_def)

text \<open>
  C4: a file name with no dot among its last five characters is loaded by
  \<open>load_oomf\<close>; when the file has at least two lines, of six fields each, the call returns
  fields 0-2 of every line as positions and fields 3-5 as magnetizations.
\<close>

theorem load_oomf_dispatch:
  assumes "CHR ''.'' \<notin> set (last_chars 5 filename)"
  shows "load_data w filename
           = load_oomf (emit (Print (''loading '' @ filename @ '' ...'')) w) filename
         \<and> (files w filename = Some rows \<and> 2 \<le> length rows \<and> (\<forall>r\<in>set rows. length r = 6)
              \<longrightarrow> fst (load_data w filename)
                    = Inr (Arr2 3 (map (take 3) rows), Arr2 3 (map (drop 3) rows)))"
proof -
  have dispatch: "load_data w filename
           = load_oomf (emit (Print (''loading '' @ filename @ '' ...'')) w) filename"
    using assms by (simp add: load_data_def Let_def)
  have "fst (load_oomf w' filename)
          = Inr (Arr2 3 (map (take 3) rows), Arr2 3 (map (drop 3) rows))"
    if "files w' filename = Some rows" "2 \<le> length rows" "\<forall>r\<in>set rows. length r = 6" for w'
  proof -
    have "loadtxt rows = Inr (Arr2 6 rows)"
      using that(2,3) by (simp add: loadtxt_table)
    then show ?thesis
      using that(1) by (simp add: load_oomf_def Let_def check_and_split_6)
  qed
  then show ?thesis
    using dispatch by (simp add: emit_def)
qed

theorem load_oomf_dispatch_witness:
  "fst (load_data (world0 ''data''
           [[Fin 0, Fin 0, Fin 0, Fin 1, Fin 0, Fin 0], [Fin 1, Fin 0, Fin 0, Fin 0, Fin 1, Fin 2]])
         ''data'')
     = Inr (Arr2 3 [[Fin 0, Fin 0, Fin 0], [Fin 1, Fin 0, Fin 0]],
            Arr2 3 [[Fin 1, Fin 0, Fin 0], [Fin 0, Fin 1, Fin 2]])"
  using load_oomf_dispatch [of "''data''"
      "world0 ''data''
           [[Fin 0, Fin 0, Fin 0, Fin 1, Fin 0, Fin 0], [Fin 1, Fin 0, Fin 0, Fin 0, Fin 1, Fin 2]]"
      "[[Fin 0, Fin 0, Fin 0, Fin 1, Fin 0, Fin 0], [Fin 1, Fin 0, Fin 0, Fin 0, Fin 1, Fin 2]]",
      THEN conjunct2]
  by (simp add: world0_def last_chars_def)

text \<open>
  C8: a second call of \<open>load_data\<close> on the world the first call left returns what the first
  returned; a call leaves the files as they are, and its result depends on the world only
  through the contents of the file it is asked for.
\<close>

theorem load_data_twice:
  "fst (load_data (snd (load_data w filename)) filename) = fst (load_data w filename)
   \<and> files (snd (load_data w filename)) = files w
   \<and> (files w' filename = files w filename \<longrightarrow>
        fst (load_data w' filename) = fst (load_data w filename))"
  using fst_load_data_files [of "snd (load_data w filename)" filename w]
    fst_load_data_files [of w' filename w] files_load_data [of w filename]
  by simp

theorem load_data_twice_witness:
  "fst (load_data (snd (load_data
          (world0 ''test'' [[Fin 0, Fin 0, Fin 0, Fin 1, Fin 0, Fin 0], [Fin 1, Fin 0, Fin 0, Fin 0, Fin 1, Fin 2]])
          ''test'')) ''test'')
     = Inr (Arr2 3 [[Fin 0, Fin 0, Fin 0], [Fin 1, Fin 0, Fin 0]],
            Arr2 3 [[Fin 1, Fin 0, Fin 0], [Fin 0, Fin 1, Fin 2]])"
proof -
  have once: "fst (load_data
          (world0 ''test'' [[Fin 0, Fin 0, Fin 0, Fin 1, Fin 0, Fin 0], [Fin 1, Fin 0, Fin 0, Fin 0, Fin 1, Fin 2]])
          ''test'')
     = Inr (Arr2 3 [[Fin 0, Fin 0, Fin 0], [Fin 1, Fin 0, Fin 0]],
            Arr2 3 [[Fin 1, Fin 0, Fin 0], [Fin 0, Fin 1, Fin 2]])"
    by (simp add: load_data_def load_oomf_def loadtxt_def check_and_split_def split_columns_def
        world0_def last_chars_def emit_def Let_def)
  show ?thesis
    by (rule trans [OF load_data_twice [THEN conjunct1] once])
qed



section \<open>Properties of rendering\<close>

lemma truthy_iff: "truthy c \<longleftrightarrow> c \<noteq> Fin 0"
  by (cases c) auto

lemma list_ex_truthy: "list_ex truthy m \<longleftrightarrow> (\<exists>c\<in>set m. c \<noteq> Fin 0)"
  by (simp add: list_ex_iff truthy_iff)

lemma nth_filter_upt:
  "map (\<lambda>i. zs ! i) (filter (\<lambda>i. Q (zs ! i)) [0..<length zs]) = filter Q zs"
proof (induction zs rule: rev_induct)
  case Nil
  then show ?case by simp
next
  case (snoc z zs)
  have f: "filter (\<lambda>i. Q ((zs @ [z]) ! i)) [0..<length zs]
             = filter (\<lambda>i. Q (zs ! i)) [0..<length zs]"
    by (rule filter_cong) (auto simp: nth_append)
  have m: "map (\<lambda>i. (zs @ [z]) ! i) (filter (\<lambda>i. Q (zs ! i)) [0..<length zs])
             = map (\<lambda>i. zs ! i) (filter (\<lambda>i. Q (zs ! i)) [0..<length zs])"
    by (rule map_cong) (auto simp: nth_append)
  show ?case using snoc.IH by (simp add: f m)
qed

lemma np_where_bound:
  "list_all (\<lambda>i. i < length flags) (np_where flags)"
  by (simp add: np_where_def list_all_iff)

lemma select_rows:
  assumes "length ps = length ms"
  shows "map (\<lambda>i. ps ! i) (np_where (map (list_ex truthy) ms)) = map fst (nonzero_sites ps ms)"
    and "map (\<lambda>i. ms ! i) (np_where (map (list_ex truthy) ms)) = map snd (nonzero_sites ps ms)"
proof -
  let ?zs = "zip ps ms"
  let ?Q = "\<lambda>(p, m). \<exists>c\<in>set m. c \<noteq> Fin 0"
  have w: "np_where (map (list_ex truthy) ms) = filter (\<lambda>i. ?Q (?zs ! i)) [0..<length ?zs]"
    unfolding np_where_def using assms
    by (intro filter_cong) (auto simp: list_ex_truthy)
  have sel: "map (\<lambda>i. ?zs ! i) (np_where (map (list_ex truthy) ms)) = nonzero_sites ps ms"
    unfolding w nonzero_sites_def by (rule nth_filter_upt)
  have in_range: "\<forall>i\<in>set (np_where (map (list_ex truthy) ms)). i < length ms"
    using np_where_bound [of "map (list_ex truthy) ms"] by (simp add: list_all_iff)
  have "map fst (map (\<lambda>i. ?zs ! i) (np_where (map (list_ex truthy) ms)))
          = map (\<lambda>i. ps ! i) (np_where (map (list_ex truthy) ms))"
    using in_range assms by (simp add: map_idI cong: map_cong)
  then show "map (\<lambda>i. ps ! i) (np_where (map (list_ex truthy) ms)) = map fst (nonzero_sites ps ms)"
    using sel by simp
  have "map snd (map (\<lambda>i. ?zs ! i) (np_where (map (list_ex truthy) ms)))
          = map (\<lambda>i. ms ! i) (np_where (map (list_ex truthy) ms))"
    using in_range assms by (simp add: map_idI cong: map_cong)
  then show "map (\<lambda>i. ms ! i) (np_where (map (list_ex truthy) ms)) = map snd (nonzero_sites ps ms)"
    using sel by simp
qed

lemma filter_sites_aligned:
  assumes "cells h pos = Arr2 kp ps" and "cells h mag = Arr2 km ms"
    and "length ps = length ms" and "pos < next_free h" and "mag < next_free h"
  shows "filter_sites h pos mag
           = (Inr (next_free h, Suc (next_free h)), filtered h kp km (nonzero_sites ps ms))"
proof -
  have bound: "list_all (\<lambda>i. i < length ms) (np_where (map (list_ex truthy) ms))"
    using np_where_bound [of "map (list_ex truthy) ms"] by simp
  show ?thesis
    using assms bound
    by (simp add: filter_sites_def alloc_def Let_def select_rows [OF assms(3)] filtered_def)
qed


lemma columns3_three:
  "columns3 (Arr2 3 rows)
     = Inr (map (\<lambda>r. r ! 0) rows, map (\<lambda>r. r ! 1) rows, map (\<lambda>r. r ! 2) rows)"
  by (simp add: columns3_def)

lemma plot_magnetization_draws:
  assumes "cells h pos = Arr2 3 ps" and "cells h mag = Arr2 3 ms"
    and "length ps = length ms" and "pos < next_free h" and "mag < next_free h"
    and "color (map (\<lambda>r. r ! 2) (map snd (nonzero_sites ps ms))) = Inr c"
  shows "plot_magnetization h pos mag figax
           = (Inr ((case figax of None \<Rightarrow> [] | Some fa \<Rightarrow> fa)
                   @ [Scatter (map (\<lambda>r. r ! 0) (map fst (nonzero_sites ps ms)))
                              (map (\<lambda>r. r ! 1) (map fst (nonzero_sites ps ms))) c,
                      Quiver (map (\<lambda>r. r ! 0) (map fst (nonzero_sites ps ms)))
                             (map (\<lambda>r. r ! 1) (map fst (nonzero_sites ps ms)))
                             (map (\<lambda>r. r ! 0) (map snd (nonzero_sites ps ms)))
                             (map (\<lambda>r. r ! 1) (map snd (nonzero_sites ps ms))) c,
                      Colorbar c]),
              snd (alloc (Arr1 c) (filtered h 3 3 (nonzero_sites ps ms))))"
proof -
  have cols: "cells (filtered h 3 3 kept) (next_free h) = Arr2 3 (map fst kept)"
    "cells (filtered h 3 3 kept) (Suc (next_free h)) = Arr2 3 (map snd kept)" for kept
    by (simp_all add: filtered_def)
  show ?thesis
    unfolding plot_magnetization_def filter_sites_aligned [OF assms(1-5)]
    using assms(6) by (simp add: cols columns3_three alloc_def Let_def)
qed

lemma plot_magnetization_raises:
  assumes "cells h pos = Arr2 3 ps" and "cells h mag = Arr2 3 ms"
    and "length ps = length ms" and "pos < next_free h" and "mag < next_free h"
    and "color (map (\<lambda>r. r ! 2) (map snd (nonzero_sites ps ms))) = Inl e"
  shows "plot_magnetization h pos mag figax = (Inl e, filtered h 3 3 (nonzero_sites ps ms))"
proof -
  have cols: "cells (filtered h 3 3 kept) (next_free h) = Arr2 3 (map fst kept)"
    "cells (filtered h 3 3 kept) (Suc (next_free h)) = Arr2 3 (map snd kept)" for kept
    by (simp_all add: filtered_def)
  show ?thesis
    unfolding plot_magnetization_def filter_sites_aligned [OF assms(1-5)]
    using assms(6) by (simp add: cols columns3_three alloc_def Let_def)
qed


lemma alloc_frame:
  "a < next_free h \<Longrightarrow> cells (snd (alloc x h)) a = cells h a"
  "next_free h \<le> next_free (snd (alloc x h))"
  by (simp_all add: alloc_def)

lemma filter_sites_frame:
  "a < next_free h \<Longrightarrow> cells (snd (filter_sites h pos mag)) a = cells h a"
  "next_free h \<le> next_free (snd (filter_sites h pos mag))"
  by (auto simp: filter_sites_def alloc_def Let_def split: sum.splits prod.splits)

text \<open>
  C9: \<open>plot_magnetization\<close> changes no array that was allocated before the call: it
  only allocates.  In particular the two arrays of the caller are as they were, whether
  the call returns or raises.
\<close>

theorem plot_magnetization_frame:
  assumes "a < next_free h"
  shows "cells (snd (plot_magnetization h pos mag figax)) a = cells h a"
proof -
  obtain r h' where fs: "filter_sites h pos mag = (r, h')"
    by (cases "filter_sites h pos mag")
  have kept: "cells h' a = cells h a" and le: "a < next_free h'"
    using filter_sites_frame(1) [of a h pos mag] filter_sites_frame(2) [of h pos mag] assms fs
    by auto
  have "cells (snd (plot_magnetization h pos mag figax)) a = cells h' a"
    using le
    by (auto simp: plot_magnetization_def fs alloc_def Let_def split: sum.splits prod.splits)
  then show ?thesis using kept by simp
qed


lemma map_nth_fst: "map (\<lambda>r. r ! j) (map fst xs) = map (\<lambda>(p, m). p ! j) xs"
  by (induction xs) auto

lemma map_nth_snd: "map (\<lambda>r. r ! j) (map snd xs) = map (\<lambda>(p, m). m ! j) xs"
  by (induction xs) auto

lemma plot_magnetization_drawing:
  assumes "cells h pos = Arr2 3 ps" and "cells h mag = Arr2 3 ms"
    and "length ps = length ms" and "pos < next_free h" and "mag < next_free h"
    and "color (map (\<lambda>(p, m). m ! 2) (nonzero_sites ps ms)) = Inr c"
  shows "fst (plot_magnetization h pos mag figax)
           = Inr ((case figax of None \<Rightarrow> [] | Some fa \<Rightarrow> fa) @ drawing (nonzero_sites ps ms) c)"
proof -
  have "color (map (\<lambda>r. r ! 2) (map snd (nonzero_sites ps ms))) = Inr c"
    using assms(6) by (simp only: map_nth_snd)
  from plot_magnetization_draws [OF assms(1-5) this] show ?thesis
    by (simp only: drawing_def map_nth_fst map_nth_snd fst_conv)
qed

lemma color_nonempty:
  assumes "Mz \<noteq> []"
  shows "\<exists>c. color Mz = Inr c \<and> length c = length Mz"
  using assms by (cases Mz) (simp_all add: color_def)

text \<open>
  C5: for two arrays with the same number of rows, lines 174-175 select from both,
  in order, exactly the rows at which the magnetization has a component other than zero;
  and when the arrays have three columns and a row is kept, the call draws those
  sites and no other.  For the magnetizations \<open>[[0,0,0],[1,0,0],[0,0,0]]\<close> one site of
  three is kept.
\<close>

theorem filter_keeps_nonzero_rows:
  assumes "cells h pos = Arr2 kp ps" and "cells h mag = Arr2 km ms"
    and "length ps = length ms" and "pos < next_free h" and "mag < next_free h"
  shows "fst (filter_sites h pos mag) = Inr (next_free h, Suc (next_free h))
         \<and> cells (snd (filter_sites h pos mag)) (next_free h) = Arr2 kp (map fst (nonzero_sites ps ms))
         \<and> cells (snd (filter_sites h pos mag)) (Suc (next_free h))
             = Arr2 km (map snd (nonzero_sites ps ms))
         \<and> (kp = 3 \<and> km = 3 \<and> nonzero_sites ps ms \<noteq> [] \<longrightarrow>
              (\<exists>c. length c = length (nonzero_sites ps ms)
                 \<and> fst (plot_magnetization h pos mag figax)
                     = Inr ((case figax of None \<Rightarrow> [] | Some fa \<Rightarrow> fa)
                            @ drawing (nonzero_sites ps ms) c)))"
proof -
  have "\<exists>c. length c = length (nonzero_sites ps ms)
           \<and> fst (plot_magnetization h pos mag figax)
               = Inr ((case figax of None \<Rightarrow> [] | Some fa \<Rightarrow> fa) @ drawing (nonzero_sites ps ms) c)"
    if three: "kp = 3" "km = 3" and some: "nonzero_sites ps ms \<noteq> []"
  proof -
    obtain c where c: "color (map (\<lambda>(p, m). m ! 2) (nonzero_sites ps ms)) = Inr c"
      "length c = length (map (\<lambda>(p, m). m ! 2) (nonzero_sites ps ms))"
      using color_nonempty [of "map (\<lambda>(p, m). m ! 2) (nonzero_sites ps ms)"] some by auto
    show ?thesis
      using plot_magnetization_drawing [OF assms(1,2) [unfolded three] assms(3-5) c(1)] c(2)
      by auto
  qed
  then show ?thesis
    by (simp add: filter_sites_aligned [OF assms] filtered_def)
qed

theorem filter_keeps_nonzero_rows_witness:
  "nonzero_sites [[Fin 0, Fin 0, Fin 0], [Fin 1, Fin 0, Fin 0], [Fin 2, Fin 0, Fin 0]]
                 [[Fin 0, Fin 0, Fin 0], [Fin 1, Fin 0, Fin 0], [Fin 0, Fin 0, Fin 0]]
     = [([Fin 1, Fin 0, Fin 0], [Fin 1, Fin 0, Fin 0])]
   \<and> cells (snd (filter_sites
         (heap0 (Arr2 3 [[Fin 0, Fin 0, Fin 0], [Fin 1, Fin 0, Fin 0], [Fin 2, Fin 0, Fin 0]])
                (Arr2 3 [[Fin 0, Fin 0, Fin 0], [Fin 1, Fin 0, Fin 0], [Fin 0, Fin 0, Fin 0]]))
         0 1)) 2 = Arr2 3 [[Fin 1, Fin 0, Fin 0]]
   \<and> cells (snd (filter_sites
         (heap0 (Arr2 3 [[Fin 0, Fin 0, Fin 0], [Fin 1, Fin 0, Fin 0], [Fin 2, Fin 0, Fin 0]])
                (Arr2 3 [[Fin 0, Fin 0, Fin 0], [Fin 1, Fin 0, Fin 0], [Fin 0, Fin 0, Fin 0]]))
         0 1)) 3 = Arr2 3 [[Fin 1, Fin 0, Fin 0]]"
proof -
  have sites: "nonzero_sites [[Fin 0, Fin 0, Fin 0], [Fin 1, Fin 0, Fin 0], [Fin 2, Fin 0, Fin 0]]
                 [[Fin 0, Fin 0, Fin 0], [Fin 1, Fin 0, Fin 0], [Fin 0, Fin 0, Fin 0]]
     = [([Fin 1, Fin 0, Fin 0], [Fin 1, Fin 0, Fin 0])]"
    by (simp add: nonzero_sites_def)
  show ?thesis
    using filter_keeps_nonzero_rows [of
        "heap0 (Arr2 3 [[Fin 0, Fin 0, Fin 0], [Fin 1, Fin 0, Fin 0], [Fin 2, Fin 0, Fin 0]])
               (Arr2 3 [[Fin 0, Fin 0, Fin 0], [Fin 1, Fin 0, Fin 0], [Fin 0, Fin 0, Fin 0]])"
        0 3 "[[Fin 0, Fin 0, Fin 0], [Fin 1, Fin 0, Fin 0], [Fin 2, Fin 0, Fin 0]]"
        1 3 "[[Fin 0, Fin 0, Fin 0], [Fin 1, Fin 0, Fin 0], [Fin 0, Fin 0, Fin 0]]" None]
    by (simp add: heap0_def sites numeral_2_eq_2 numeral_3_eq_3)
qed


lemma heap0_cells:
  "cells (heap0 P M) 0 = P" "cells (heap0 P M) 1 = M" "0 < next_free (heap0 P M)" "1 < next_free (heap0 P M)"
  by (simp_all add: heap0_def)

text \<open>
  When no row is kept, \<open>Mz\<close> is empty and \<open>np.max\<close> raises \<open>ValueError\<close>: nothing is drawn.
\<close>

lemma all_zero_raises:
  "fst (plot_magnetization
         (heap0 (Arr2 3 [[Fin 0, Fin 0, Fin 0]]) (Arr2 3 [[Fin 0, Fin 0, Fin 0]])) 0 1 None)
     = Inl (ValueError ''zero-size array to reduction operation maximum which has no identity'')"
proof -
  have sites: "nonzero_sites [[Fin 0, Fin 0, Fin 0]] [[Fin 0, Fin 0, Fin 0]] = []"
    by (simp add: nonzero_sites_def)
  have col: "color (map (\<lambda>r. r ! 2) (map snd (nonzero_sites [[Fin 0, Fin 0, Fin 0]] [[Fin 0, Fin 0, Fin 0]])))
      = Inl (ValueError ''zero-size array to reduction operation maximum which has no identity'')"
    by (simp add: sites color_def)
  show ?thesis
    using plot_magnetization_raises [OF heap0_cells(1,2) _ heap0_cells(3,4) col, of None]
    by simp
qed

theorem plot_magnetization_frame_witness:
  "cells (snd (plot_magnetization
         (heap0 (Arr2 3 [[Fin 0, Fin 0, Fin 0], [Fin 1, Fin 0, Fin 0], [Fin 2, Fin 0, Fin 0]])
                (Arr2 3 [[Fin 0, Fin 0, Fin 0], [Fin 1, Fin 0, Fin 0], [Fin 0, Fin 0, Fin 0]]))
         0 1 None)) 0
     = Arr2 3 [[Fin 0, Fin 0, Fin 0], [Fin 1, Fin 0, Fin 0], [Fin 2, Fin 0, Fin 0]]
   \<and> cells (snd (plot_magnetization
         (heap0 (Arr2 3 [[Fin 0, Fin 0, Fin 0], [Fin 1, Fin 0, Fin 0], [Fin 2, Fin 0, Fin 0]])
                (Arr2 3 [[Fin 0, Fin 0, Fin 0], [Fin 1, Fin 0, Fin 0], [Fin 0, Fin 0, Fin 0]]))
         0 1 None)) 1
     = Arr2 3 [[Fin 0, Fin 0, Fin 0], [Fin 1, Fin 0, Fin 0], [Fin 0, Fin 0, Fin 0]]"
  using plot_magnetization_frame [of 0
        "heap0 (Arr2 3 [[Fin 0, Fin 0, Fin 0], [Fin 1, Fin 0, Fin 0], [Fin 2, Fin 0, Fin 0]])
               (Arr2 3 [[Fin 0, Fin 0, Fin 0], [Fin 1, Fin 0, Fin 0], [Fin 0, Fin 0, Fin 0]])"
        0 1 None]
    plot_magnetization_frame [of 1
        "heap0 (Arr2 3 [[Fin 0, Fin 0, Fin 0], [Fin 1, Fin 0, Fin 0], [Fin 2, Fin 0, Fin 0]])
               (Arr2 3 [[Fin 0, Fin 0, Fin 0], [Fin 1, Fin 0, Fin 0], [Fin 0, Fin 0, Fin 0]])"
        0 1 None]
  by (simp add: heap0_def)

end
